theory Spec2Isabelle
  imports Complex_Main
begin

section \<open>useRetry: the retry orchestrator\<close>

text \<open>
  The hook \<open>useRetry\<close> drives an asynchronous operation through a bounded number of
  attempts. JavaScript numbers are modelled by exact numbers: delays are reals, attempt
  counters are naturals, \<open>maxAttempts\<close> is an integer (it may be negative). Rounding,
  \<open>NaN\<close> and the infinities of IEEE arithmetic are outside the model.

  The callbacks \<open>onRetry\<close> and \<open>onMaxAttemptsReached\<close> return nothing; the model records
  each invocation, with its arguments, in the log \<open>calls\<close>. Invocations of the wrapped
  operation and of \<open>shouldRetry\<close> are recorded in the same log.
\<close>

record 'e RetryOptions =
  maxAttempts :: int
  initialDelay :: real
  backoffMultiplier :: real
  maxDelay :: real
  useExponentialBackoff :: bool
  shouldRetry :: "'e \<Rightarrow> nat \<Rightarrow> bool"

record 'e RetryState =
  isRetrying :: bool
  currentAttempt :: nat
  lastError :: "'e option"
  timeUntilNextRetry :: real
  totalAttempts :: nat

text \<open>
  What a promise of the hook can be rejected with: the value the operation failed with,
  kept verbatim, or the \<open>Error('Operation cancelled')\<close> that \<open>attemptOperation\<close> throws.
\<close>

datatype 'e thrown = OperationError 'e | OperationCancelled

datatype ('a, 'e) promise = Pending | Resolved 'a | Rejected "'e thrown"

datatype 'e call =
    Operation
  | ShouldRetry 'e nat
  | OnRetry 'e nat real
  | OnMaxAttemptsReached 'e nat

text \<open>
  The hook instance during one \<open>execute()\<close> chain.
  \<^item> \<open>timeoutRef\<close> is the outstanding retry timeout, with the attempt number it will start
    and its delay; a timeout that has fired or was cleared is \<open>None\<close> (clearing a fired
    handle does nothing in the host, so the stale handle of the source is not observable).
  \<^item> \<open>countdownRef\<close> is the outstanding countdown poll, with the \<open>totalDelay\<close> its closure
    holds. A poll of an earlier countdown that is still outstanding when the next countdown
    starts is left out: it would only publish another \<open>timeUntilNextRetry\<close>.
  \<^item> \<open>awaiting\<close> is the attempt whose \<open>await operation(...args)\<close> has not settled yet.
  \<^item> \<open>promise\<close> is the promise returned by \<open>execute()\<close>: the inner promises of the chain
    are adopted by it (\<open>.then(resolve).catch(reject)\<close>), so it settles when the chain does.
\<close>

record ('a, 'e) useRetry =
  state :: "'e RetryState"
  cancelledRef :: bool
  timeoutRef :: "(nat \<times> real) option"
  countdownRef :: "real option"
  awaiting :: "nat option"
  promise :: "('a, 'e) promise"
  calls :: "'e call list"

definition DEFAULT_OPTIONS :: "'e RetryOptions" where
  "DEFAULT_OPTIONS =
     \<lparr> maxAttempts = 3, initialDelay = 1000, backoffMultiplier = 2, maxDelay = 30000,
       useExponentialBackoff = True, shouldRetry = (\<lambda>error attemptNumber. True) \<rparr>"

definition mount :: "('a, 'e) useRetry" where
  "mount =
     \<lparr> state = \<lparr> isRetrying = False, currentAttempt = 0, lastError = None,
                 timeUntilNextRetry = 0, totalAttempts = 0 \<rparr>,
       cancelledRef = False, timeoutRef = None, countdownRef = None, awaiting = None,
       promise = Pending, calls = [] \<rparr>"

text \<open>
  \<open>Math.pow\<close> at an integer exponent. (At base 0 and a negative exponent JavaScript gives
  \<open>Infinity\<close>; \<open>execute\<close> only asks for exponents from 0 on.) \<open>calculateDelay\<close> is the
  expression of the source over exact numbers; \<open>calculateDelay_IEEE\<close> below adds overflow
  and \<open>NaN\<close>.
\<close>

definition Math_pow :: "real \<Rightarrow> int \<Rightarrow> real" where
  "Math_pow b k = (if 0 \<le> k then b ^ nat k else inverse (b ^ nat (- k)))"

definition calculateDelay :: "'e RetryOptions \<Rightarrow> nat \<Rightarrow> real" where
  "calculateDelay opts attemptNumber =
     (if \<not> useExponentialBackoff opts then initialDelay opts
      else let delay = initialDelay opts
                         * Math_pow (backoffMultiplier opts) (int attemptNumber - 1)
           in min delay (maxDelay opts))"

text \<open>
  One run of \<open>updateCountdown\<close>, \<open>elapsed\<close> milliseconds after the countdown started
  (the difference of the two clock readings).
\<close>

definition updateCountdown :: "real \<Rightarrow> real \<Rightarrow> ('a, 'e) useRetry \<Rightarrow> ('a, 'e) useRetry" where
  "updateCountdown totalDelay elapsed h =
     (let remaining = max 0 (totalDelay - elapsed);
          h1 = h\<lparr> state := (state h)\<lparr> timeUntilNextRetry := remaining \<rparr> \<rparr>
      in if remaining > 0 \<and> \<not> cancelledRef h1
         then h1\<lparr> countdownRef := Some totalDelay \<rparr> else h1)"

definition startCountdown :: "real \<Rightarrow> ('a, 'e) useRetry \<Rightarrow> ('a, 'e) useRetry" where
  "startCountdown totalDelay h = updateCountdown totalDelay 0 h"

definition attemptOperation :: "nat \<Rightarrow> ('a, 'e) useRetry \<Rightarrow> ('a, 'e) useRetry" where
  "attemptOperation attemptNumber h =
     (if cancelledRef h then h\<lparr> promise := Rejected OperationCancelled \<rparr>
      else h\<lparr> state := (state h)\<lparr> currentAttempt := attemptNumber,
                                  totalAttempts := attemptNumber + 1 \<rparr>,
              awaiting := Some attemptNumber,
              calls := calls h @ [Operation] \<rparr>)"

definition execute :: "('a, 'e) useRetry \<Rightarrow> ('a, 'e) useRetry" where
  "execute h =
     attemptOperation 0
       (h\<lparr> cancelledRef := False,
           state := (state h)\<lparr> isRetrying := True, currentAttempt := 0, lastError := None,
                               timeUntilNextRetry := 0, totalAttempts := 0 \<rparr>,
           promise := Pending \<rparr>)"

text \<open>
  The awaited operation settles: \<open>Inr result\<close> is the \<open>try\<close> branch after the \<open>await\<close>,
  \<open>Inl error\<close> the \<open>catch\<close> branch. Nothing happens when no attempt is awaited.
\<close>

definition operationSettles ::
  "'e RetryOptions \<Rightarrow> 'e + 'a \<Rightarrow> ('a, 'e) useRetry \<Rightarrow> ('a, 'e) useRetry" where
  "operationSettles opts outcome h =
     (case awaiting h of
        None \<Rightarrow> h
      | Some attemptNumber \<Rightarrow>
          (case outcome of
             Inr result \<Rightarrow>
               h\<lparr> awaiting := None,
                  state := (state h)\<lparr> isRetrying := False, timeUntilNextRetry := 0 \<rparr>,
                  promise := Resolved result \<rparr>
           | Inl error \<Rightarrow>
               (let h1 = h\<lparr> awaiting := None,
                            state := (state h)\<lparr> lastError := Some error \<rparr>,
                            calls := calls h @ [ShouldRetry error attemptNumber] \<rparr>;
                    shouldRetry' = shouldRetry opts error attemptNumber;
                    hasAttemptsLeft = (int attemptNumber < maxAttempts opts)
                in if \<not> shouldRetry' \<or> \<not> hasAttemptsLeft \<or> cancelledRef h1
                   then
                     h1\<lparr> state := (state h1)\<lparr> isRetrying := False, timeUntilNextRetry := 0 \<rparr>,
                         calls := calls h1 @
                           (if hasAttemptsLeft = False
                            then [OnMaxAttemptsReached error (attemptNumber + 1)] else []),
                         promise := Rejected (OperationError error) \<rparr>
                   else
                     (let delay = calculateDelay opts (attemptNumber + 1);
                          h2 = h1\<lparr> calls := calls h1 @ [OnRetry error (attemptNumber + 1) delay] \<rparr>;
                          h3 = startCountdown delay h2
                      in h3\<lparr> timeoutRef := Some (attemptNumber + 1, delay) \<rparr>))))"

definition retryTimerFires :: "('a, 'e) useRetry \<Rightarrow> ('a, 'e) useRetry" where
  "retryTimerFires h =
     (case timeoutRef h of
        None \<Rightarrow> h
      | Some (attemptNumber, delay) \<Rightarrow> attemptOperation attemptNumber (h\<lparr> timeoutRef := None \<rparr>))"

definition countdownFires :: "real \<Rightarrow> ('a, 'e) useRetry \<Rightarrow> ('a, 'e) useRetry" where
  "countdownFires elapsed h =
     (case countdownRef h of
        None \<Rightarrow> h
      | Some totalDelay \<Rightarrow> updateCountdown totalDelay elapsed (h\<lparr> countdownRef := None \<rparr>))"

definition cancel :: "('a, 'e) useRetry \<Rightarrow> ('a, 'e) useRetry" where
  "cancel h =
     h\<lparr> cancelledRef := True, timeoutRef := None, countdownRef := None,
        state := (state h)\<lparr> isRetrying := False, timeUntilNextRetry := 0 \<rparr> \<rparr>"

definition reset :: "('a, 'e) useRetry \<Rightarrow> ('a, 'e) useRetry" where
  "reset h =
     (cancel h)\<lparr> state := \<lparr> isRetrying = False, currentAttempt = 0, lastError = None,
                            timeUntilNextRetry = 0, totalAttempts = 0 \<rparr> \<rparr>"

text \<open>
  Everything that can happen to a hook instance after \<open>execute()\<close> was called: the awaited
  operation settles, one of the two timers fires, or the host calls \<open>cancel()\<close> or
  \<open>reset()\<close>.
\<close>

datatype ('a, 'e) event =
    OperationSettles "'e + 'a"
  | RetryTimerFires
  | CountdownFires real
  | Cancel
  | Reset

fun step :: "'e RetryOptions \<Rightarrow> ('a, 'e) event \<Rightarrow> ('a, 'e) useRetry \<Rightarrow> ('a, 'e) useRetry" where
  "step opts (OperationSettles outcome) h = operationSettles opts outcome h"
| "step opts RetryTimerFires h = retryTimerFires h"
| "step opts (CountdownFires elapsed) h = countdownFires elapsed h"
| "step opts Cancel h = cancel h"
| "step opts Reset h = reset h"

fun run :: "'e RetryOptions \<Rightarrow> ('a, 'e) event list \<Rightarrow> ('a, 'e) useRetry \<Rightarrow> ('a, 'e) useRetry" where
  "run opts [] h = h"
| "run opts (ev # evs) h = run opts evs (step opts ev h)"

text \<open>
  An undisturbed chain: nobody cancels, the \<open>n\<close>-th call of the operation settles with
  \<open>operation n\<close>, and an armed retry timeout fires. \<open>drive\<close> lets the chain make up to
  \<open>fuel\<close> such moves and stops early once nothing is awaited and no timeout is armed.
\<close>

fun drive ::
  "nat \<Rightarrow> 'e RetryOptions \<Rightarrow> (nat \<Rightarrow> 'e + 'a) \<Rightarrow> ('a, 'e) useRetry \<Rightarrow> ('a, 'e) useRetry" where
  "drive 0 opts operation h = h"
| "drive (Suc fuel) opts operation h =
     (case awaiting h of
        Some attemptNumber \<Rightarrow>
          drive fuel opts operation (operationSettles opts (operation attemptNumber) h)
      | None \<Rightarrow>
          (case timeoutRef h of
             Some t \<Rightarrow> drive fuel opts operation (retryTimerFires h)
           | None \<Rightarrow> h))"

definition operationCalls :: "('a, 'e) useRetry \<Rightarrow> nat" where
  "operationCalls h = length (filter (\<lambda>c. c = Operation) (calls h))"

fun isOnMaxAttemptsReached :: "'e call \<Rightarrow> bool" where
  "isOnMaxAttemptsReached (OnMaxAttemptsReached error n) = True"
| "isOnMaxAttemptsReached c = False"

fun isShouldRetry :: "'e call \<Rightarrow> bool" where
  "isShouldRetry (ShouldRetry error n) = True"
| "isShouldRetry c = False"

text \<open>
  A chain that nothing can continue: no attempt is awaited, no retry timeout is armed, and
  the promise is still pending.
\<close>

definition abandoned :: "('a, 'e) useRetry \<Rightarrow> bool" where
  "abandoned h \<longleftrightarrow> awaiting h = None \<and> timeoutRef h = None \<and> promise h = Pending"

text \<open>
  A scenario: with \<open>maxAttempts = 0\<close>, \<open>cancel()\<close> is called while the first attempt is
  awaited, and the attempt then fails.
\<close>

definition cancelledThenFailed :: "(unit, string) useRetry" where
  "cancelledThenFailed =
     run (DEFAULT_OPTIONS\<lparr> maxAttempts := 0 \<rparr>)
       [Cancel, OperationSettles (Inl ''failure'')] (execute mount)"

text \<open>
  \<open>calculateDelay\<close> once more, with the special values of JavaScript numbers. The options
  are finite numbers. \<open>Math.pow\<close> returns an approximation of the power and \<open>*\<close> the
  rounded product: each may turn a real into a nearby number of the same sign or, beyond
  the range, into the infinity of that sign, and never into \<open>NaN\<close>. The two are parameters,
  \<open>approx\<close> and \<open>rnd\<close>; exact arithmetic (\<open>Num\<close>) is one choice for them, and \<open>overflowing\<close>,
  which is exact up to \<open>Number.MAX_VALUE\<close>, another. The product of 0 and an infinity is
  \<open>NaN\<close>, and \<open>Math.min\<close> returns \<open>NaN\<close> when an argument is \<open>NaN\<close>.
\<close>

datatype number = Num real | PosInfinity | NegInfinity | NaN

definition rounding :: "(real \<Rightarrow> number) \<Rightarrow> bool" where
  "rounding rnd \<longleftrightarrow>
     (\<forall>x. case rnd x of
             Num y \<Rightarrow> (0 \<le> x \<longrightarrow> 0 \<le> y) \<and> (x \<le> 0 \<longrightarrow> y \<le> 0)
           | PosInfinity \<Rightarrow> 0 < x
           | NegInfinity \<Rightarrow> x < 0
           | NaN \<Rightarrow> False)"

definition MAX_VALUE :: real where
  "MAX_VALUE = (2 - 1 / 2 ^ 52) * 2 ^ 1023"

definition overflowing :: "real \<Rightarrow> number" where
  "overflowing x =
     (if MAX_VALUE < x then PosInfinity
      else if x < - MAX_VALUE then NegInfinity
      else Num x)"

definition Math_pow_IEEE :: "(real \<Rightarrow> number) \<Rightarrow> real \<Rightarrow> int \<Rightarrow> number" where
  "Math_pow_IEEE approx b k =
     (if b = 0 \<and> k < 0 then PosInfinity else approx (Math_pow b k))"

fun multiply_IEEE :: "(real \<Rightarrow> number) \<Rightarrow> real \<Rightarrow> number \<Rightarrow> number" where
  "multiply_IEEE rnd x (Num y) = rnd (x * y)"
| "multiply_IEEE rnd x PosInfinity =
     (if x = 0 then NaN else if 0 < x then PosInfinity else NegInfinity)"
| "multiply_IEEE rnd x NegInfinity =
     (if x = 0 then NaN else if 0 < x then NegInfinity else PosInfinity)"
| "multiply_IEEE rnd x NaN = NaN"

fun Math_min_IEEE :: "number \<Rightarrow> real \<Rightarrow> number" where
  "Math_min_IEEE (Num x) y = Num (min x y)"
| "Math_min_IEEE PosInfinity y = Num y"
| "Math_min_IEEE NegInfinity y = NegInfinity"
| "Math_min_IEEE NaN y = NaN"

definition calculateDelay_IEEE ::
  "(real \<Rightarrow> number) \<Rightarrow> (real \<Rightarrow> number) \<Rightarrow> 'e RetryOptions \<Rightarrow> nat \<Rightarrow> number" where
  "calculateDelay_IEEE approx rnd opts attemptNumber =
     (if \<not> useExponentialBackoff opts then Num (initialDelay opts)
      else let delay = multiply_IEEE rnd (initialDelay opts)
                         (Math_pow_IEEE approx (backoffMultiplier opts) (int attemptNumber - 1))
           in Math_min_IEEE delay (maxDelay opts))"

text \<open>A number that is at most \<open>hi\<close>, and a number that lies in \<open>[lo, hi]\<close>.\<close>

fun numberAtMost :: "real \<Rightarrow> number \<Rightarrow> bool" where
  "numberAtMost hi (Num x) = (x \<le> hi)"
| "numberAtMost hi NegInfinity = True"
| "numberAtMost hi PosInfinity = False"
| "numberAtMost hi NaN = False"

fun numberWithin :: "real \<Rightarrow> real \<Rightarrow> number \<Rightarrow> bool" where
  "numberWithin lo hi (Num x) = (lo \<le> x \<and> x \<le> hi)"
| "numberWithin lo hi n = False"

text \<open>
  A scenario: an instance that was used before. With \<open>maxAttempts = 2\<close> its first attempt
  failed and \<open>cancel()\<close> was called during the backoff wait.
\<close>

definition cancelledInstance :: "(unit, string \<times> nat) useRetry" where
  "cancelledInstance =
     run (DEFAULT_OPTIONS\<lparr> maxAttempts := 2 \<rparr>)
       [OperationSettles (Inl (''failure'', 0)), Cancel] (execute mount)"

section \<open>useBatchedUpdates: the batch coalescer\<close>

text \<open>
  The hook \<open>useBatchedUpdates\<close> collects updates and hands them to a consumer in batches.
  The callback \<open>onFlush\<close> of the options and the consumer \<open>onBatchFlush\<close> return nothing;
  the model records each invocation, with its arguments, in the log \<open>delivered\<close>.
\<close>

record 'a BatchedUpdatesOptions =
  batchWindow :: real
  maxBatchSize :: int
  flushOnFirst :: bool
  reducer :: "'a list \<Rightarrow> 'a \<Rightarrow> 'a list"

datatype 'a delivery = OnFlush "'a list" nat | OnBatchFlush "'a list"

text \<open>
  What a timeout of the hook runs when it fires: the auto-flush of \<open>scheduleFlush\<close>, the
  deferred delivery that \<open>addUpdate\<close> schedules with delay 0 (its closure holds the batch
  and the size it reports to \<open>onFlush\<close>), or one poll of the countdown.
\<close>

datatype 'a task = AutoFlush | Deliver "'a list" nat | Countdown

text \<open>
  The hook instance and the part of the host it uses.
  \<^item> \<open>timers\<close> are the host's outstanding timeouts, oldest first, each with its handle,
    its delay and its task; \<open>nextHandle\<close> is the handle the next \<open>setTimeout\<close> returns
    (handles start at 1 and are truthy). A cleared or fired timeout leaves the list, while
    a ref may go on holding its handle.
  \<^item> \<open>dateNow\<close> is the host's clock, \<open>Date.now()\<close>.
  \<^item> \<open>hasPendingUpdates\<close> is the value computed by the last render; the two effects that
    copy it and \<open>pendingUpdates\<close> into \<open>hasPendingUpdatesRef\<close> and \<open>pendingUpdatesRef\<close>
    run in \<open>render\<close>.
  The refs \<open>timeoutRef\<close> and \<open>countdownRef\<close> of this hook carry the suffix \<open>B\<close>, as do the
  other names that \<open>useRetry\<close> has too.
\<close>

record 'a useBatchedUpdates =
  pendingUpdates :: "'a list"
  timeUntilFlush :: real
  hasPendingUpdates :: bool
  timeoutRefB :: "nat option"
  countdownRefB :: "nat option"
  startTimeRef :: real
  isFirstUpdateRef :: bool
  hasPendingUpdatesRef :: bool
  pendingUpdatesRef :: "'a list"
  timers :: "(nat \<times> real \<times> 'a task) list"
  nextHandle :: nat
  dateNow :: real
  delivered :: "'a delivery list"

definition DEFAULT_OPTIONS_B :: "'a BatchedUpdatesOptions" where
  "DEFAULT_OPTIONS_B =
     \<lparr> batchWindow = 100, maxBatchSize = 50, flushOnFirst = False,
       reducer = (\<lambda>accumulated newUpdate. accumulated @ [newUpdate]) \<rparr>"

definition mountB :: "'a useBatchedUpdates" where
  "mountB =
     \<lparr> pendingUpdates = [], timeUntilFlush = 0, hasPendingUpdates = False,
       timeoutRefB = None, countdownRefB = None, startTimeRef = 0,
       isFirstUpdateRef = True, hasPendingUpdatesRef = False, pendingUpdatesRef = [],
       timers = [], nextHandle = 1, dateNow = 0, delivered = [] \<rparr>"

definition setTimeout ::
  "'a task \<Rightarrow> real \<Rightarrow> 'a useBatchedUpdates \<Rightarrow> nat \<times> 'a useBatchedUpdates" where
  "setTimeout task delay h =
     (nextHandle h,
      h\<lparr> timers := timers h @ [(nextHandle h, delay, task)],
         nextHandle := nextHandle h + 1 \<rparr>)"

definition clearTimeout :: "nat \<Rightarrow> 'a useBatchedUpdates \<Rightarrow> 'a useBatchedUpdates" where
  "clearTimeout handle h = h\<lparr> timers := filter (\<lambda>t. fst t \<noteq> handle) (timers h) \<rparr>"

definition clearTimers :: "'a useBatchedUpdates \<Rightarrow> 'a useBatchedUpdates" where
  "clearTimers h =
     (let h1 = (case timeoutRefB h of
                  None \<Rightarrow> h
                | Some handle \<Rightarrow> (clearTimeout handle h)\<lparr> timeoutRefB := None \<rparr>)
      in case countdownRefB h1 of
           None \<Rightarrow> h1
         | Some handle \<Rightarrow> (clearTimeout handle h1)\<lparr> countdownRefB := None \<rparr>)"

definition updateCountdownB ::
  "'a BatchedUpdatesOptions \<Rightarrow> 'a useBatchedUpdates \<Rightarrow> 'a useBatchedUpdates" where
  "updateCountdownB opts h =
     (if \<not> hasPendingUpdatesRef h then h
      else let elapsed = dateNow h - startTimeRef h;
               remaining = max 0 (batchWindow opts - elapsed);
               h1 = h\<lparr> timeUntilFlush := remaining \<rparr>
           in if remaining > 0
              then (case setTimeout Countdown 50 h1 of
                      (handle, h2) \<Rightarrow> h2\<lparr> countdownRefB := Some handle \<rparr>)
              else h1)"

definition startCountdownB ::
  "'a BatchedUpdatesOptions \<Rightarrow> 'a useBatchedUpdates \<Rightarrow> 'a useBatchedUpdates" where
  "startCountdownB opts h =
     updateCountdownB opts (h\<lparr> startTimeRef := dateNow h, timeUntilFlush := batchWindow opts \<rparr>)"

definition flush :: "'a useBatchedUpdates \<Rightarrow> 'a useBatchedUpdates" where
  "flush h =
     (let currentUpdates = pendingUpdates h
      in if length currentUpdates = 0 then h
         else let h1 = clearTimers h;
                  updatesToFlush = currentUpdates
              in h1\<lparr> timeUntilFlush := 0,
                     delivered := delivered h1 @
                       [OnFlush updatesToFlush (length updatesToFlush),
                        OnBatchFlush updatesToFlush],
                     isFirstUpdateRef := True,
                     hasPendingUpdatesRef := False,
                     pendingUpdates := [] \<rparr>)"

definition scheduleFlush ::
  "'a BatchedUpdatesOptions \<Rightarrow> 'a useBatchedUpdates \<Rightarrow> 'a useBatchedUpdates" where
  "scheduleFlush opts h =
     (let h1 = clearTimers h;
          h2 = startCountdownB opts h1
      in case setTimeout AutoFlush (batchWindow opts) h2 of
           (handle, h3) \<Rightarrow> h3\<lparr> timeoutRefB := Some handle \<rparr>)"

definition addUpdate ::
  "'a BatchedUpdatesOptions \<Rightarrow> 'a \<Rightarrow> 'a useBatchedUpdates \<Rightarrow> 'a useBatchedUpdates" where
  "addUpdate opts update h =
     (let prev = pendingUpdates h;
          newUpdates = reducer opts prev update;
          shouldFlushOnFirst = (flushOnFirst opts \<and> isFirstUpdateRef h);
          shouldFlushOnSize = (int (length newUpdates) \<ge> maxBatchSize opts)
      in if shouldFlushOnFirst
         then (case setTimeout (Deliver [update] 1) 0 h of
                 (handle, h1) \<Rightarrow> h1\<lparr> isFirstUpdateRef := False, pendingUpdates := [] \<rparr>)
         else if shouldFlushOnSize
         then (case setTimeout (Deliver newUpdates (length newUpdates)) 0 h of
                 (handle, h1) \<Rightarrow> h1\<lparr> isFirstUpdateRef := True, pendingUpdates := [] \<rparr>)
         else let h1 = (if length prev = 0
                        then scheduleFlush opts (h\<lparr> hasPendingUpdatesRef := True \<rparr>)
                        else h)
              in h1\<lparr> isFirstUpdateRef := False, pendingUpdates := newUpdates \<rparr>)"

definition clear :: "'a useBatchedUpdates \<Rightarrow> 'a useBatchedUpdates" where
  "clear h =
     (clearTimers h)\<lparr> pendingUpdates := [], timeUntilFlush := 0,
                      isFirstUpdateRef := True, hasPendingUpdatesRef := False \<rparr>"

text \<open>
  The host fires the timeout \<open>handle\<close>: the timeout leaves the host's list and its task
  runs. Nothing happens when no such timeout is outstanding.
\<close>

definition timerFires ::
  "'a BatchedUpdatesOptions \<Rightarrow> nat \<Rightarrow> 'a useBatchedUpdates \<Rightarrow> 'a useBatchedUpdates" where
  "timerFires opts handle h =
     (case find (\<lambda>t. fst t = handle) (timers h) of
        None \<Rightarrow> h
      | Some (handle', delay, task) \<Rightarrow>
          (let h1 = h\<lparr> timers := filter (\<lambda>t. fst t \<noteq> handle) (timers h) \<rparr>
           in case task of
                AutoFlush \<Rightarrow> flush h1
              | Deliver updates batchSize \<Rightarrow>
                  h1\<lparr> delivered := delivered h1 @
                         [OnFlush updates batchSize, OnBatchFlush updates] \<rparr>
              | Countdown \<Rightarrow> updateCountdownB opts h1))"

text \<open>
  The effects that run after a render: \<open>hasPendingUpdatesRef\<close> is overwritten when
  \<open>hasPendingUpdates\<close> has changed since the last render, \<open>pendingUpdatesRef\<close> follows
  \<open>pendingUpdates\<close>.
\<close>

definition render :: "'a useBatchedUpdates \<Rightarrow> 'a useBatchedUpdates" where
  "render h =
     (let batchSize = length (pendingUpdates h);
          hasPendingUpdates' = (batchSize > 0)
      in h\<lparr> hasPendingUpdates := hasPendingUpdates',
            hasPendingUpdatesRef :=
              (if hasPendingUpdates' \<noteq> hasPendingUpdates h then hasPendingUpdates'
               else hasPendingUpdatesRef h),
            pendingUpdatesRef := pendingUpdates h \<rparr>)"

text \<open>
  The two cleanups of the unmount: the timers are cleared, then a batch that is still
  pending is handed to \<open>onFlush\<close> and to the consumer. (The second cleanup belongs to an
  effect that depends on the options; the options of an instance are taken to be the same
  in all its renders, so that it runs at the unmount only.)
\<close>

definition unmount :: "'a useBatchedUpdates \<Rightarrow> 'a useBatchedUpdates" where
  "unmount h =
     (let h1 = clearTimers h
      in if length (pendingUpdatesRef h1) > 0
         then h1\<lparr> delivered := delivered h1 @
                     [OnFlush (pendingUpdatesRef h1) (length (pendingUpdatesRef h1)),
                      OnBatchFlush (pendingUpdatesRef h1)],
                 hasPendingUpdatesRef := False \<rparr>
         else h1)"

text \<open>
  What happens to a mounted instance: a call of \<open>addUpdate\<close>, \<open>flush\<close> or \<open>clear\<close>, a
  timeout firing, or time passing. The host renders after each of them. Any outstanding
  timeout may fire at any moment: the model does not order timeouts by their delays.
\<close>

datatype 'a eventB =
    AddUpdate 'a
  | Flush
  | Clear
  | TimerFires nat
  | Elapse real

fun handleB :: "'a BatchedUpdatesOptions \<Rightarrow> 'a eventB \<Rightarrow> 'a useBatchedUpdates \<Rightarrow> 'a useBatchedUpdates" where
  "handleB opts (AddUpdate update) h = addUpdate opts update h"
| "handleB opts Flush h = flush h"
| "handleB opts Clear h = clear h"
| "handleB opts (TimerFires handle) h = timerFires opts handle h"
| "handleB opts (Elapse ms) h = h\<lparr> dateNow := dateNow h + ms \<rparr>"

definition stepB :: "'a BatchedUpdatesOptions \<Rightarrow> 'a eventB \<Rightarrow> 'a useBatchedUpdates \<Rightarrow> 'a useBatchedUpdates" where
  "stepB opts ev h = render (handleB opts ev h)"

fun runB :: "'a BatchedUpdatesOptions \<Rightarrow> 'a eventB list \<Rightarrow> 'a useBatchedUpdates \<Rightarrow> 'a useBatchedUpdates" where
  "runB opts [] h = h"
| "runB opts (ev # evs) h = runB opts evs (stepB opts ev h)"

definition autoFlushTimers :: "'a useBatchedUpdates \<Rightarrow> (nat \<times> real \<times> 'a task) list" where
  "autoFlushTimers h = filter (\<lambda>t. snd (snd t) = AutoFlush) (timers h)"

text \<open>
  What holds of every instance between two events: the handles of the outstanding
  timeouts are older than \<open>nextHandle\<close> and differ from each other, an outstanding
  auto-flush timeout is the one that \<open>timeoutRef\<close> holds, and the batch is empty while the
  first-update flag is set.
\<close>

definition consistent :: "'a useBatchedUpdates \<Rightarrow> bool" where
  "consistent h \<longleftrightarrow>
     (\<forall>t \<in> set (timers h). fst t < nextHandle h)
     \<and> distinct (map fst (timers h))
     \<and> (\<forall>t \<in> set (timers h). snd (snd t) = AutoFlush \<longrightarrow> timeoutRefB h = Some (fst t))
     \<and> (isFirstUpdateRef h \<longrightarrow> pendingUpdates h = [])"

text \<open>A batch that is pending is shorter than \<open>maxBatchSize\<close>.\<close>

definition belowMaxBatchSize :: "'a BatchedUpdatesOptions \<Rightarrow> 'a useBatchedUpdates \<Rightarrow> bool" where
  "belowMaxBatchSize opts h \<longleftrightarrow>
     pendingUpdates h = [] \<or> int (length (pendingUpdates h)) < maxBatchSize opts"

text \<open>
  Scenarios. The default options with \<open>maxBatchSize = 3\<close>; three updates and the deferred
  delivery they schedule; the same with \<open>flushOnFirst\<close>, where the first update is
  delivered apart and a fifth update follows the size-triggered flush; two updates and a
  manual \<open>flush()\<close>; four updates; and a reducer that drops negative numbers.
\<close>

definition sizeThree :: "string BatchedUpdatesOptions" where
  "sizeThree = DEFAULT_OPTIONS_B\<lparr> maxBatchSize := 3 \<rparr>"

definition sizeFlushed :: "string useBatchedUpdates" where
  "sizeFlushed =
     runB sizeThree
       [AddUpdate ''a'', AddUpdate ''b'', AddUpdate ''c'', TimerFires 3] mountB"

definition firstFlushed :: "string useBatchedUpdates" where
  "firstFlushed =
     runB (sizeThree\<lparr> flushOnFirst := True \<rparr>)
       [AddUpdate ''a'', TimerFires 1, AddUpdate ''b'', AddUpdate ''c'', AddUpdate ''d'',
        TimerFires 4, AddUpdate ''e'', TimerFires 5] mountB"

definition manuallyFlushed :: "string useBatchedUpdates" where
  "manuallyFlushed = runB sizeThree [AddUpdate ''a'', AddUpdate ''b'', Flush] mountB"

definition fourUpdates :: "string useBatchedUpdates" where
  "fourUpdates =
     runB sizeThree
       [AddUpdate ''a'', AddUpdate ''b'', AddUpdate ''c'', AddUpdate ''d'', TimerFires 3] mountB"

definition droppingNegatives :: "int BatchedUpdatesOptions" where
  "droppingNegatives =
     \<lparr> batchWindow = 100, maxBatchSize = 50, flushOnFirst = True,
       reducer = (\<lambda>accumulated newUpdate.
                    if newUpdate < 0 then accumulated else accumulated @ [newUpdate]) \<rparr>"

section \<open>Properties of useRetry\<close>

lemma drive_idle:
  "awaiting h = None \<Longrightarrow> timeoutRef h = None \<Longrightarrow> drive fuel opts operation h = h"
  by (cases fuel) simp_all

lemma updateCountdown_frame:
  "awaiting (updateCountdown d x h) = awaiting h"
  "timeoutRef (updateCountdown d x h) = timeoutRef h"
  "cancelledRef (updateCountdown d x h) = cancelledRef h"
  "promise (updateCountdown d x h) = promise h"
  "calls (updateCountdown d x h) = calls h"
  by (simp_all add: updateCountdown_def Let_def)

text \<open>
  A poll of the countdown publishes \<open>timeUntilNextRetry\<close> and re-arms itself; it leaves the
  chain alone.
\<close>

lemma countdownFires_frame:
  "awaiting (countdownFires elapsed h) = awaiting h"
  "timeoutRef (countdownFires elapsed h) = timeoutRef h"
  "cancelledRef (countdownFires elapsed h) = cancelledRef h"
  "promise (countdownFires elapsed h) = promise h"
  "calls (countdownFires elapsed h) = calls h"
  by (simp_all add: countdownFires_def updateCountdown_frame split: option.splits)

lemma operationSettles_retry:
  assumes "awaiting h = Some n" "shouldRetry opts e n" "int n < maxAttempts opts"
    "\<not> cancelledRef h"
  shows "awaiting (operationSettles opts (Inl e) h) = None"
    "timeoutRef (operationSettles opts (Inl e) h) = Some (n + 1, calculateDelay opts (n + 1))"
    "\<not> cancelledRef (operationSettles opts (Inl e) h)"
    "promise (operationSettles opts (Inl e) h) = promise h"
    "calls (operationSettles opts (Inl e) h) =
       calls h @ [ShouldRetry e n, OnRetry e (n + 1) (calculateDelay opts (n + 1))]"
  using assms
  by (simp_all add: operationSettles_def Let_def startCountdown_def updateCountdown_frame)

lemma operationSettles_exhausted:
  assumes "awaiting h = Some n" "\<not> int n < maxAttempts opts"
  shows "awaiting (operationSettles opts (Inl e) h) = None"
    "timeoutRef (operationSettles opts (Inl e) h) = timeoutRef h"
    "promise (operationSettles opts (Inl e) h) = Rejected (OperationError e)"
    "calls (operationSettles opts (Inl e) h) =
       calls h @ [ShouldRetry e n, OnMaxAttemptsReached e (n + 1)]"
  using assms by (simp_all add: operationSettles_def Let_def)

lemma retryTimerFires_starts:
  assumes "timeoutRef h = Some (n, d)" "\<not> cancelledRef h"
  shows "awaiting (retryTimerFires h) = Some n"
    "timeoutRef (retryTimerFires h) = None"
    "\<not> cancelledRef (retryTimerFires h)"
    "promise (retryTimerFires h) = promise h"
    "calls (retryTimerFires h) = calls h @ [Operation]"
  using assms by (simp_all add: retryTimerFires_def attemptOperation_def)

lemma drive_failing:
  assumes sr: "\<And>e n. shouldRetry opts e n"
    and fails: "\<And>n. operation n = Inl (err n)"
  shows "awaiting h = Some n \<Longrightarrow> timeoutRef h = None \<Longrightarrow> \<not> cancelledRef h \<Longrightarrow>
    int n \<le> maxAttempts opts \<Longrightarrow> k = nat (maxAttempts opts) - n \<Longrightarrow> 2 * k + 1 \<le> fuel \<Longrightarrow>
    operationCalls (drive fuel opts operation h) = operationCalls h + k
    \<and> filter isOnMaxAttemptsReached (calls (drive fuel opts operation h)) =
        filter isOnMaxAttemptsReached (calls h) @
          [OnMaxAttemptsReached (err (nat (maxAttempts opts))) (nat (maxAttempts opts) + 1)]
    \<and> promise (drive fuel opts operation h) =
        Rejected (OperationError (err (nat (maxAttempts opts))))"
proof (induction k arbitrary: h n fuel)
  case 0
  then obtain f where fuel: "fuel = Suc f" by (cases fuel) auto
  from 0 have n: "n = nat (maxAttempts opts)" and last: "\<not> int n < maxAttempts opts" by auto
  let ?h1 = "operationSettles opts (Inl (err n)) h"
  have idle: "awaiting ?h1 = None" "timeoutRef ?h1 = None"
    using operationSettles_exhausted[OF \<open>awaiting h = Some n\<close> last] \<open>timeoutRef h = None\<close>
    by simp_all
  have "drive fuel opts operation h = ?h1"
    using fuel \<open>awaiting h = Some n\<close> fails drive_idle[OF idle] by simp
  then show ?case
    using operationSettles_exhausted[OF \<open>awaiting h = Some n\<close> last, of "err n"] n
    by (simp add: operationCalls_def)
next
  case (Suc k)
  define f where "f = fuel - 2"
  have fuel: "fuel = Suc (Suc f)" and f: "2 * k + 1 \<le> f"
    using Suc.prems(6) by (simp_all add: f_def)
  from Suc.prems have more: "int n < maxAttempts opts" by auto
  let ?h1 = "operationSettles opts (Inl (err n)) h"
  let ?h2 = "retryTimerFires ?h1"
  note r = operationSettles_retry[OF \<open>awaiting h = Some n\<close> sr more \<open>\<not> cancelledRef h\<close>, of "err n"]
  note t = retryTimerFires_starts[OF r(2) r(3)]
  have "drive fuel opts operation h = drive f opts operation ?h2"
    using fuel \<open>awaiting h = Some n\<close> fails r(1) r(2) by simp
  moreover have "operationCalls (drive f opts operation ?h2) = operationCalls ?h2 + k
    \<and> filter isOnMaxAttemptsReached (calls (drive f opts operation ?h2)) =
        filter isOnMaxAttemptsReached (calls ?h2) @
          [OnMaxAttemptsReached (err (nat (maxAttempts opts))) (nat (maxAttempts opts) + 1)]
    \<and> promise (drive f opts operation ?h2) =
        Rejected (OperationError (err (nat (maxAttempts opts))))"
  proof (rule Suc.IH[of ?h2 "n + 1" f])
    show "awaiting ?h2 = Some (n + 1)" using t(1) by simp
    show "timeoutRef ?h2 = None" by (rule t(2))
    show "\<not> cancelledRef ?h2" by (rule t(3))
    show "int (n + 1) \<le> maxAttempts opts" using more by simp
    show "k = nat (maxAttempts opts) - (n + 1)" using Suc.prems(5) by simp
    show "2 * k + 1 \<le> f" by (rule f)
  qed
  ultimately show ?case
    using t(5) r(5) by (simp add: operationCalls_def)
qed

lemma Math_pow_nat: "Math_pow b (int (n + 1) - 1) = b ^ n"
  by (simp add: Math_pow_def)

text \<open>
  C1. Let \<open>maxAttempts = M \<ge> 0\<close>, let \<open>shouldRetry\<close> always answer true and let every call
  of the operation fail (the \<open>n\<close>-th call of the chain with \<open>err n\<close>). Take any instance on
  which no retry timeout is outstanding, fresh or used and cancelled before. Then one call
  of \<open>execute()\<close>, undisturbed and given enough moves (\<open>2 M + 1\<close> suffice), calls the operation
  exactly \<open>M + 1\<close> times, calls \<open>onMaxAttemptsReached\<close> exactly once, with the last error
  and \<open>M + 1\<close>, and leaves the promise of \<open>execute()\<close> rejected with the last error.
\<close>

theorem permanently_failing_operation:
  fixes operation :: "nat \<Rightarrow> 'e + 'a" and h :: "('a, 'e) useRetry"
  assumes "0 \<le> maxAttempts opts"
    and "\<forall>error n. shouldRetry opts error n"
    and "\<forall>n. operation n = Inl (err n)"
    and "2 * nat (maxAttempts opts) + 1 \<le> fuel"
    and "timeoutRef h = None"
  shows "operationCalls (drive fuel opts operation (execute h)) =
           operationCalls h + (nat (maxAttempts opts) + 1)
    \<and> filter isOnMaxAttemptsReached (calls (drive fuel opts operation (execute h))) =
        filter isOnMaxAttemptsReached (calls h) @
        [OnMaxAttemptsReached (err (nat (maxAttempts opts))) (nat (maxAttempts opts) + 1)]
    \<and> promise (drive fuel opts operation (execute h)) =
        Rejected (OperationError (err (nat (maxAttempts opts))))"
proof -
  let ?h = "execute h"
  have start: "awaiting ?h = Some 0" "timeoutRef ?h = None" "\<not> cancelledRef ?h"
    "calls ?h = calls h @ [Operation]"
    using assms(5) by (simp_all add: execute_def attemptOperation_def)
  have "int 0 \<le> maxAttempts opts" using assms(1) by simp
  from drive_failing[of opts operation err ?h 0 "nat (maxAttempts opts)" fuel,
      OF _ _ start(1) start(2) start(3) this]
    assms start(4)
  show ?thesis by (simp add: operationCalls_def)
qed

theorem permanently_failing_operation_witness:
  "cancelledRef cancelledInstance
   \<and> timeoutRef cancelledInstance = None
   \<and> operationCalls cancelledInstance = 1
   \<and> operationCalls
       (drive 5 (DEFAULT_OPTIONS\<lparr> maxAttempts := 2 \<rparr>) (\<lambda>n. Inl (''failure'', n))
          (execute cancelledInstance)) = 4
   \<and> filter isOnMaxAttemptsReached
       (calls (drive 5 (DEFAULT_OPTIONS\<lparr> maxAttempts := 2 \<rparr>) (\<lambda>n. Inl (''failure'', n))
          (execute cancelledInstance))) =
       [OnMaxAttemptsReached (''failure'', 2) 3]
   \<and> promise
       (drive 5 (DEFAULT_OPTIONS\<lparr> maxAttempts := 2 \<rparr>) (\<lambda>n. Inl (''failure'', n))
          (execute cancelledInstance)) =
       Rejected (OperationError (''failure'', 2))"
proof -
  have h: "cancelledRef cancelledInstance" "timeoutRef cancelledInstance = None"
    "calls cancelledInstance =
       [Operation, ShouldRetry (''failure'', 0) 0, OnRetry (''failure'', 0) 1 1000]"
    by (simp_all add: cancelledInstance_def DEFAULT_OPTIONS_def execute_def mount_def
        attemptOperation_def operationSettles_def Let_def cancel_def startCountdown_def
        updateCountdown_frame calculateDelay_def Math_pow_def)
  from permanently_failing_operation[of "DEFAULT_OPTIONS\<lparr> maxAttempts := 2 \<rparr>"
      "\<lambda>n. Inl (''failure'', n)" "\<lambda>n. (''failure'', n)" 5 cancelledInstance] h
  show ?thesis by (simp add: DEFAULT_OPTIONS_def operationCalls_def)
qed

text \<open>
  C2. With \<open>useExponentialBackoff\<close> the delay computed for the \<open>k\<close>-th retry (\<open>k \<ge> 1\<close>) is
  \<open>min (initialDelay * backoffMultiplier ^ (k - 1)) maxDelay\<close>, and without it the delay is
  \<open>initialDelay\<close>. This is the delay that a failed attempt \<open>n = k - 1\<close> which is retried
  hands to \<open>onRetry\<close> and arms the retry timeout with. With \<open>initialDelay = 100\<close> and
  \<open>backoffMultiplier = 2\<close> the first three delays are 100, 200 and 400.
\<close>

theorem backoff_delay_formula:
  fixes opts :: "'e RetryOptions"
  shows "(1 \<le> k \<longrightarrow>
      calculateDelay opts k =
        (if useExponentialBackoff opts
         then min (initialDelay opts * backoffMultiplier opts ^ (k - 1)) (maxDelay opts)
         else initialDelay opts))
   \<and> (awaiting h = Some n \<and> shouldRetry opts error n \<and> int n < maxAttempts opts
        \<and> \<not> cancelledRef h \<longrightarrow>
        timeoutRef (operationSettles opts (Inl error) h) =
          Some (n + 1, calculateDelay opts (n + 1))
        \<and> calls (operationSettles opts (Inl error) h) =
          calls h @ [ShouldRetry error n, OnRetry error (n + 1) (calculateDelay opts (n + 1))])
   \<and> map (calculateDelay ((DEFAULT_OPTIONS :: 'e RetryOptions)
                               \<lparr> initialDelay := 100, backoffMultiplier := 2 \<rparr>))
        [1, 2, 3] = [100, 200, 400]"
proof (intro conjI impI)
  assume "1 \<le> k"
  then obtain n where k: "k = n + 1" by (cases k) auto
  show "calculateDelay opts k =
        (if useExponentialBackoff opts
         then min (initialDelay opts * backoffMultiplier opts ^ (k - 1)) (maxDelay opts)
         else initialDelay opts)"
    unfolding k calculateDelay_def Math_pow_nat by (simp add: Let_def)
next
  assume a: "awaiting h = Some n \<and> shouldRetry opts error n \<and> int n < maxAttempts opts
        \<and> \<not> cancelledRef h"
  then show "timeoutRef (operationSettles opts (Inl error) h) =
          Some (n + 1, calculateDelay opts (n + 1))"
    by (simp add: operationSettles_retry)
  from a show "calls (operationSettles opts (Inl error) h) =
          calls h @ [ShouldRetry error n, OnRetry error (n + 1) (calculateDelay opts (n + 1))]"
    by (simp add: operationSettles_retry)
next
  show "map (calculateDelay (DEFAULT_OPTIONS\<lparr> initialDelay := 100, backoffMultiplier := 2 \<rparr>))
        [1, 2, 3] = [100, 200, 400]"
    by (simp add: calculateDelay_def DEFAULT_OPTIONS_def Math_pow_def)
qed

theorem backoff_delay_formula_witness:
  "calculateDelay ((DEFAULT_OPTIONS :: string RetryOptions)\<lparr> initialDelay := 100, maxDelay := 500 \<rparr>) 4 = 500
   \<and> calculateDelay ((DEFAULT_OPTIONS :: string RetryOptions)\<lparr> initialDelay := 100, maxDelay := 500 \<rparr>) 1 = 100
   \<and> timeoutRef (operationSettles ((DEFAULT_OPTIONS :: string RetryOptions)\<lparr> initialDelay := 100, maxDelay := 500 \<rparr>)
        (Inl ''failure'') (execute mount :: (unit, string) useRetry)) = Some (1, 100)
   \<and> calls (operationSettles ((DEFAULT_OPTIONS :: string RetryOptions)\<lparr> initialDelay := 100, maxDelay := 500 \<rparr>)
        (Inl ''failure'') (execute mount :: (unit, string) useRetry)) =
        [Operation, ShouldRetry ''failure'' 0, OnRetry ''failure'' 1 100]"
  using backoff_delay_formula[of 4 "(DEFAULT_OPTIONS :: string RetryOptions)\<lparr> initialDelay := 100, maxDelay := 500 \<rparr>"
      "execute mount :: (unit, string) useRetry" 0 "''failure''"]
    backoff_delay_formula[of 1 "(DEFAULT_OPTIONS :: string RetryOptions)\<lparr> initialDelay := 100, maxDelay := 500 \<rparr>"
      "execute mount :: (unit, string) useRetry" 0 "''failure''"]
  by (simp add: DEFAULT_OPTIONS_def execute_def mount_def attemptOperation_def)

text \<open>
  C8 as stated (every computed delay lies in \<open>[0, maxDelay]\<close>, with or without exponential
  backoff) fails: without exponential backoff the default \<open>initialDelay = 1000\<close> is returned
  although \<open>maxDelay = 500\<close>, and with it a negative \<open>initialDelay\<close> gives a negative delay.
\<close>

theorem delay_outside_interval:
  "\<not> (calculateDelay ((DEFAULT_OPTIONS :: string RetryOptions)
          \<lparr> maxDelay := 500, useExponentialBackoff := False \<rparr>) 1
        \<le> maxDelay ((DEFAULT_OPTIONS :: string RetryOptions)
          \<lparr> maxDelay := 500, useExponentialBackoff := False \<rparr>))
   \<and> \<not> (0 \<le> calculateDelay ((DEFAULT_OPTIONS :: string RetryOptions)
          \<lparr> initialDelay := - 100 \<rparr>) 1)"
  by (simp add: calculateDelay_def DEFAULT_OPTIONS_def Math_pow_def)

text \<open>
  Exact arithmetic and \<open>overflowing\<close> are roundings; under exact arithmetic
  \<open>calculateDelay_IEEE\<close> is \<open>calculateDelay\<close>.
\<close>

lemma rounding_exact: "rounding Num"
  by (simp add: rounding_def)

lemma MAX_VALUE_pos: "0 < MAX_VALUE"
  by (simp add: MAX_VALUE_def)

lemma rounding_overflowing: "rounding overflowing"
  using MAX_VALUE_pos by (auto simp add: rounding_def overflowing_def)

lemma calculateDelay_IEEE_exact:
  "backoffMultiplier opts \<noteq> 0 \<or> 1 \<le> k \<Longrightarrow>
   calculateDelay_IEEE Num Num opts k = Num (calculateDelay opts k)"
  by (auto simp add: calculateDelay_IEEE_def calculateDelay_def Math_pow_IEEE_def Let_def)

lemma rounding_cases:
  assumes "rounding rnd"
  obtains y where "rnd x = Num y" "0 \<le> x \<Longrightarrow> 0 \<le> y" "x \<le> 0 \<Longrightarrow> y \<le> 0"
  | "rnd x = PosInfinity" "0 < x"
  | "rnd x = NegInfinity" "x < 0"
proof (cases "rnd x")
  case (Num y)
  then show ?thesis using assms that(1)[of y] by (auto simp add: rounding_def dest: spec[of _ x])
next
  case PosInfinity
  then show ?thesis using assms that(2) by (auto simp add: rounding_def dest: spec[of _ x])
next
  case NegInfinity
  then show ?thesis using assms that(3) by (auto simp add: rounding_def dest: spec[of _ x])
next
  case NaN
  then show ?thesis using assms by (auto simp add: rounding_def dest: spec[of _ x])
qed

lemma multiply_IEEE_NaN:
  assumes "rounding rnd"
  shows "multiply_IEEE rnd x p = NaN \<longleftrightarrow> p = NaN \<or> (x = 0 \<and> p \<in> {PosInfinity, NegInfinity})"
proof (cases p)
  case (Num y)
  then show ?thesis by (cases rule: rounding_cases[OF assms, of "x * y"]) simp_all
qed auto

lemma Math_pow_IEEE_not_NaN:
  assumes "rounding approx"
  shows "Math_pow_IEEE approx b k \<noteq> NaN"
  by (cases rule: rounding_cases[OF assms, of "Math_pow b k"]) (simp_all add: Math_pow_IEEE_def)

lemma Math_min_IEEE_NaN: "Math_min_IEEE d y = NaN \<longleftrightarrow> d = NaN"
  by (cases d) simp_all

lemma Math_min_IEEE_atMost: "d \<noteq> NaN \<Longrightarrow> numberAtMost y (Math_min_IEEE d y)"
  by (cases d) simp_all

lemma Math_pow_IEEE_nonneg:
  assumes "rounding approx" and "0 \<le> b" and "1 \<le> k"
  shows "(\<exists>y. Math_pow_IEEE approx b (int k - 1) = Num y \<and> 0 \<le> y)
    \<or> Math_pow_IEEE approx b (int k - 1) = PosInfinity"
proof -
  have "0 \<le> Math_pow b (int k - 1)" using assms(2,3) by (simp add: Math_pow_def)
  moreover have "\<not> (b = 0 \<and> int k - 1 < 0)" using assms(3) by simp
  ultimately show ?thesis
    by (cases rule: rounding_cases[OF assms(1), of "Math_pow b (int k - 1)"])
      (auto simp add: Math_pow_IEEE_def)
qed

lemma multiply_IEEE_nonneg:
  assumes "rounding rnd" and "0 \<le> x"
    and "(\<exists>y. p = Num y \<and> 0 \<le> y) \<or> p = PosInfinity"
    and "multiply_IEEE rnd x p \<noteq> NaN"
  shows "(\<exists>z. multiply_IEEE rnd x p = Num z \<and> 0 \<le> z) \<or> multiply_IEEE rnd x p = PosInfinity"
  using assms(3)
proof
  assume "\<exists>y. p = Num y \<and> 0 \<le> y"
  then obtain y where p: "p = Num y" and y: "0 \<le> y" by blast
  have "0 \<le> x * y" using assms(2) y by simp
  then show ?thesis
    unfolding p by (cases rule: rounding_cases[OF assms(1), of "x * y"]) auto
next
  assume "p = PosInfinity"
  then show ?thesis using assms(2,4) by auto
qed

text \<open>
  The delay can be \<open>NaN\<close>: with \<open>initialDelay = 0\<close> and \<open>backoffMultiplier = 2 ^ 512\<close> the
  power for the third retry overflows, and 0 times \<open>Infinity\<close> is \<open>NaN\<close>.
\<close>

lemma delay_NaN_example:
  "calculateDelay_IEEE overflowing overflowing
     ((DEFAULT_OPTIONS :: string RetryOptions)\<lparr> initialDelay := 0, backoffMultiplier := 2 ^ 512 \<rparr>)
     3 = NaN"
  by (simp add: DEFAULT_OPTIONS_def calculateDelay_IEEE_def Math_pow_IEEE_def Math_pow_def
      overflowing_def MAX_VALUE_def)

text \<open>
  The two delays outside \<open>[0, maxDelay]\<close> shown above are the same with the special
  values: nothing overflows there.
\<close>

lemma delay_outside_interval_IEEE:
  "calculateDelay_IEEE overflowing overflowing
     ((DEFAULT_OPTIONS :: string RetryOptions)
        \<lparr> maxDelay := 500, useExponentialBackoff := False \<rparr>) 1 = Num 1000
   \<and> calculateDelay_IEEE overflowing overflowing
       ((DEFAULT_OPTIONS :: string RetryOptions)\<lparr> initialDelay := - 100 \<rparr>) 1 = Num (- 100)"
  by (simp add: DEFAULT_OPTIONS_def calculateDelay_IEEE_def Math_pow_IEEE_def Math_pow_def
      overflowing_def MAX_VALUE_def)

text \<open>
  C8, amended. The options are finite numbers, and \<open>Math.pow\<close> and \<open>*\<close> round as any
  rounding does. Without \<open>useExponentialBackoff\<close> the delay is \<open>initialDelay\<close> itself,
  whatever \<open>maxDelay\<close> is. With \<open>useExponentialBackoff\<close> the delay is \<open>NaN\<close> exactly when
  \<open>initialDelay\<close> is 0 and the power overflows to an infinity; when it is not \<open>NaN\<close>, it never
  exceeds \<open>maxDelay\<close>, and for a retry index \<open>k \<ge> 1\<close> it lies in \<open>[0, maxDelay]\<close> when
  \<open>initialDelay\<close>, \<open>backoffMultiplier\<close> and \<open>maxDelay\<close> are not negative.
\<close>

theorem delay_bounds_unless_NaN:
  assumes "rounding approx" and "rounding rnd"
  shows "(\<not> useExponentialBackoff opts \<longrightarrow>
        calculateDelay_IEEE approx rnd opts k = Num (initialDelay opts))
   \<and> (calculateDelay_IEEE approx rnd opts k = NaN \<longleftrightarrow>
        useExponentialBackoff opts \<and> initialDelay opts = 0
        \<and> Math_pow_IEEE approx (backoffMultiplier opts) (int k - 1)
            \<in> {PosInfinity, NegInfinity})
   \<and> (useExponentialBackoff opts \<and> calculateDelay_IEEE approx rnd opts k \<noteq> NaN \<longrightarrow>
        numberAtMost (maxDelay opts) (calculateDelay_IEEE approx rnd opts k))
   \<and> (useExponentialBackoff opts \<and> 1 \<le> k \<and> 0 \<le> initialDelay opts
        \<and> 0 \<le> backoffMultiplier opts \<and> 0 \<le> maxDelay opts
        \<and> calculateDelay_IEEE approx rnd opts k \<noteq> NaN \<longrightarrow>
        numberWithin 0 (maxDelay opts) (calculateDelay_IEEE approx rnd opts k))"
proof (intro conjI impI)
  show "calculateDelay_IEEE approx rnd opts k = Num (initialDelay opts)"
    if "\<not> useExponentialBackoff opts"
    using that by (simp add: calculateDelay_IEEE_def)
  show "calculateDelay_IEEE approx rnd opts k = NaN \<longleftrightarrow>
        useExponentialBackoff opts \<and> initialDelay opts = 0
        \<and> Math_pow_IEEE approx (backoffMultiplier opts) (int k - 1)
            \<in> {PosInfinity, NegInfinity}"
    using Math_pow_IEEE_not_NaN[OF assms(1)]
    by (simp add: calculateDelay_IEEE_def Let_def Math_min_IEEE_NaN
        multiply_IEEE_NaN[OF assms(2)])
  show "numberAtMost (maxDelay opts) (calculateDelay_IEEE approx rnd opts k)"
    if "useExponentialBackoff opts \<and> calculateDelay_IEEE approx rnd opts k \<noteq> NaN"
    using that
    by (auto simp add: calculateDelay_IEEE_def Let_def Math_min_IEEE_NaN
        intro: Math_min_IEEE_atMost)
  show "numberWithin 0 (maxDelay opts) (calculateDelay_IEEE approx rnd opts k)"
    if h: "useExponentialBackoff opts \<and> 1 \<le> k \<and> 0 \<le> initialDelay opts
        \<and> 0 \<le> backoffMultiplier opts \<and> 0 \<le> maxDelay opts
        \<and> calculateDelay_IEEE approx rnd opts k \<noteq> NaN"
  proof -
    let ?p = "Math_pow_IEEE approx (backoffMultiplier opts) (int k - 1)"
    let ?d = "multiply_IEEE rnd (initialDelay opts) ?p"
    have c: "calculateDelay_IEEE approx rnd opts k = Math_min_IEEE ?d (maxDelay opts)"
      using h by (simp add: calculateDelay_IEEE_def Let_def)
    then have "?d \<noteq> NaN" using h by (simp add: Math_min_IEEE_NaN)
    from multiply_IEEE_nonneg[OF assms(2) _ Math_pow_IEEE_nonneg[OF assms(1)] this] h
    have "(\<exists>z. ?d = Num z \<and> 0 \<le> z) \<or> ?d = PosInfinity" by simp
    then show ?thesis using h unfolding c by auto
  qed
qed

theorem delay_bounds_unless_NaN_witness:
  "calculateDelay_IEEE overflowing overflowing (DEFAULT_OPTIONS :: string RetryOptions) 7
     = Num 30000
   \<and> numberWithin 0 30000
       (calculateDelay_IEEE overflowing overflowing (DEFAULT_OPTIONS :: string RetryOptions) 7)
   \<and> calculateDelay_IEEE overflowing overflowing
       ((DEFAULT_OPTIONS :: string RetryOptions)
          \<lparr> maxDelay := 500, useExponentialBackoff := False \<rparr>) 7 = Num 1000"
  using delay_bounds_unless_NaN[OF rounding_overflowing rounding_overflowing,
      of "DEFAULT_OPTIONS :: string RetryOptions" 7]
    delay_bounds_unless_NaN[OF rounding_overflowing rounding_overflowing,
      of "(DEFAULT_OPTIONS :: string RetryOptions)
          \<lparr> maxDelay := 500, useExponentialBackoff := False \<rparr>" 7]
  by (simp add: DEFAULT_OPTIONS_def calculateDelay_IEEE_def Math_pow_IEEE_def Math_pow_def
      overflowing_def MAX_VALUE_def)

lemma abandoned_step: "abandoned h \<Longrightarrow> abandoned (step opts ev h)"
  by (cases ev)
    (simp_all add: abandoned_def operationSettles_def retryTimerFires_def countdownFires_frame
      cancel_def reset_def)

lemma abandoned_run: "abandoned h \<Longrightarrow> abandoned (run opts evs h)"
  by (induction evs arbitrary: h) (simp_all add: abandoned_step)

text \<open>
  C3 (every \<open>execute()\<close> promise settles, also when \<open>cancel()\<close> is called during a backoff
  wait) fails on the code. With the default options the first attempt fails and the retry
  timeout of 1000 ms is armed; \<open>cancel()\<close> then clears that timeout, and whatever happens to
  the instance afterwards, the promise of \<open>execute()\<close> stays pending.
\<close>

theorem cancel_during_backoff_never_settles:
  "timeoutRef (run DEFAULT_OPTIONS [OperationSettles (Inl error)]
      (execute mount :: ('a, 'e) useRetry)) = Some (1, 1000)
   \<and> promise (run DEFAULT_OPTIONS evs
      (run DEFAULT_OPTIONS [OperationSettles (Inl error), Cancel]
        (execute mount :: ('a, 'e) useRetry))) = Pending"
proof -
  let ?h = "run DEFAULT_OPTIONS [OperationSettles (Inl error), Cancel]
        (execute mount :: ('a, 'e) useRetry)"
  have "abandoned ?h"
    by (simp add: abandoned_def DEFAULT_OPTIONS_def execute_def mount_def attemptOperation_def
        operationSettles_def Let_def cancel_def startCountdown_def updateCountdown_frame)
  then have "abandoned (run DEFAULT_OPTIONS evs ?h)"
    by (rule abandoned_run)
  then have "promise (run DEFAULT_OPTIONS evs ?h) = Pending"
    by (simp add: abandoned_def)
  moreover have "timeoutRef (run DEFAULT_OPTIONS [OperationSettles (Inl error)]
      (execute mount :: ('a, 'e) useRetry)) = Some (1, 1000)"
    by (simp add: DEFAULT_OPTIONS_def execute_def mount_def attemptOperation_def
        operationSettles_def Let_def startCountdown_def updateCountdown_frame
        calculateDelay_def Math_pow_def)
  ultimately show ?thesis by blast
qed

text \<open>
  C4 as stated (a failure with the cancelled flag set rejects with a cancellation error and
  invokes neither \<open>shouldRetry\<close> nor \<open>onMaxAttemptsReached\<close>) fails: in the scenario above
  both callbacks are invoked and the promise is rejected with the error of the operation.
\<close>

theorem failure_while_cancelled_counterexample:
  "calls cancelledThenFailed =
     [Operation, ShouldRetry ''failure'' 0, OnMaxAttemptsReached ''failure'' 1]
   \<and> promise cancelledThenFailed = Rejected (OperationError ''failure'')
   \<and> promise cancelledThenFailed \<noteq> Rejected OperationCancelled"
  by (simp add: cancelledThenFailed_def DEFAULT_OPTIONS_def execute_def mount_def
      attemptOperation_def operationSettles_def Let_def cancel_def)

text \<open>
  C4, amended. When an awaited attempt \<open>n\<close> fails while the cancelled flag is set, the chain
  ends there: the promise is rejected with the error of the operation, no retry timeout
  and no countdown is armed, \<open>onRetry\<close> is not invoked, and the snapshot gets the error,
  \<open>isRetrying = false\<close> and \<open>timeUntilNextRetry = 0\<close>. \<open>shouldRetry\<close> is invoked once, and
  \<open>onMaxAttemptsReached\<close> is invoked exactly when \<open>n \<ge> maxAttempts\<close>.
\<close>

theorem failure_while_cancelled:
  assumes "awaiting h = Some n" and "cancelledRef h"
  shows "promise (operationSettles opts (Inl error) h) = Rejected (OperationError error)
    \<and> awaiting (operationSettles opts (Inl error) h) = None
    \<and> timeoutRef (operationSettles opts (Inl error) h) = timeoutRef h
    \<and> countdownRef (operationSettles opts (Inl error) h) = countdownRef h
    \<and> state (operationSettles opts (Inl error) h) =
        (state h)\<lparr> lastError := Some error, isRetrying := False, timeUntilNextRetry := 0 \<rparr>
    \<and> calls (operationSettles opts (Inl error) h) =
        calls h @ [ShouldRetry error n] @
          (if int n < maxAttempts opts then [] else [OnMaxAttemptsReached error (n + 1)])"
  using assms by (simp add: operationSettles_def Let_def)

theorem failure_while_cancelled_witness:
  "promise (operationSettles DEFAULT_OPTIONS (Inl ''failure'') (cancel (execute mount))
      :: (unit, string) useRetry) = Rejected (OperationError ''failure'')
   \<and> calls (operationSettles DEFAULT_OPTIONS (Inl ''failure'') (cancel (execute mount))
      :: (unit, string) useRetry) = [Operation, ShouldRetry ''failure'' 0]
   \<and> timeoutRef (operationSettles DEFAULT_OPTIONS (Inl ''failure'') (cancel (execute mount))
      :: (unit, string) useRetry) = None"
  using failure_while_cancelled[of "cancel (execute mount) :: (unit, string) useRetry" 0
      DEFAULT_OPTIONS "''failure''"]
  by (simp add: DEFAULT_OPTIONS_def execute_def mount_def attemptOperation_def cancel_def)

text \<open>
  C10. \<open>cancel()\<close> changes two fields of the published snapshot only: \<open>isRetrying\<close> becomes
  false and \<open>timeUntilNextRetry\<close> becomes 0, while \<open>currentAttempt\<close>, \<open>lastError\<close> and
  \<open>totalAttempts\<close> keep their values; \<open>reset()\<close> is what puts them back to 0, null and 0.
\<close>

theorem cancel_keeps_attempt_fields:
  "state (cancel h) = (state h)\<lparr> isRetrying := False, timeUntilNextRetry := 0 \<rparr>
   \<and> isRetrying (state (cancel h)) = False
   \<and> timeUntilNextRetry (state (cancel h)) = 0
   \<and> currentAttempt (state (cancel h)) = currentAttempt (state h)
   \<and> lastError (state (cancel h)) = lastError (state h)
   \<and> totalAttempts (state (cancel h)) = totalAttempts (state h)
   \<and> state (reset h) = \<lparr> isRetrying = False, currentAttempt = 0, lastError = None,
                          timeUntilNextRetry = 0, totalAttempts = 0 \<rparr>"
  by (simp add: cancel_def reset_def)

section \<open>Properties of useBatchedUpdates\<close>

lemmas batch_defs =
  stepB_def render_def addUpdate_def scheduleFlush_def startCountdownB_def
  updateCountdownB_def setTimeout_def clearTimers_def clearTimeout_def flush_def clear_def
  timerFires_def unmount_def autoFlushTimers_def mountB_def DEFAULT_OPTIONS_B_def Let_def

lemma clearTimers_eq:
  "clearTimers h =
     h\<lparr> timers := filter (\<lambda>t. Some (fst t) \<noteq> timeoutRefB h \<and> Some (fst t) \<noteq> countdownRefB h)
                     (timers h),
        timeoutRefB := None, countdownRefB := None \<rparr>"
  by (cases "timeoutRefB h"; cases "countdownRefB h")
    (auto simp add: clearTimers_def clearTimeout_def Let_def conj_commute)

lemma consistent_clearTimers: "consistent h \<Longrightarrow> consistent (clearTimers h)"
  by (auto simp add: consistent_def clearTimers_eq distinct_map_filter)

lemma no_autoFlush_clearTimers:
  "consistent h \<Longrightarrow> autoFlushTimers (clearTimers h) = []"
  by (auto simp add: consistent_def clearTimers_eq autoFlushTimers_def filter_empty_conv)

lemma updateCountdownB_frame:
  "pendingUpdates (updateCountdownB opts h) = pendingUpdates h"
  "isFirstUpdateRef (updateCountdownB opts h) = isFirstUpdateRef h"
  "timeoutRefB (updateCountdownB opts h) = timeoutRefB h"
  "delivered (updateCountdownB opts h) = delivered h"
  "pendingUpdatesRef (updateCountdownB opts h) = pendingUpdatesRef h"
  by (simp_all add: updateCountdownB_def setTimeout_def Let_def)

lemma consistent_updateCountdownB: "consistent h \<Longrightarrow> consistent (updateCountdownB opts h)"
  by (auto simp add: consistent_def updateCountdownB_def setTimeout_def Let_def less_Suc_eq)

lemma consistent_flush: "consistent h \<Longrightarrow> consistent (flush h)"
  by (auto simp add: consistent_def flush_def clearTimers_eq Let_def distinct_map_filter)

lemma consistent_clear: "consistent h \<Longrightarrow> consistent (clear h)"
  by (auto simp add: consistent_def clear_def clearTimers_eq distinct_map_filter)

lemma consistent_scheduleFlush:
  assumes "consistent h"
  shows "consistent (scheduleFlush opts h)"
    and "pendingUpdates (scheduleFlush opts h) = pendingUpdates h"
    and "delivered (scheduleFlush opts h) = delivered h"
proof -
  let ?h1 = "clearTimers h"
  let ?h2 = "updateCountdownB opts
               (?h1\<lparr> startTimeRef := dateNow ?h1, timeUntilFlush := batchWindow opts \<rparr>)"
  have s: "scheduleFlush opts h =
             ?h2\<lparr> timers := timers ?h2 @ [(nextHandle ?h2, batchWindow opts, AutoFlush)],
                   nextHandle := nextHandle ?h2 + 1,
                   timeoutRefB := Some (nextHandle ?h2) \<rparr>"
    by (simp add: scheduleFlush_def startCountdownB_def setTimeout_def Let_def)
  have c1: "consistent (?h1\<lparr> startTimeRef := dateNow ?h1, timeUntilFlush := batchWindow opts \<rparr>)"
    using consistent_clearTimers[OF assms] by (simp add: consistent_def)
  have none: "\<forall>t \<in> set (timers ?h2). snd (snd t) \<noteq> AutoFlush"
    using no_autoFlush_clearTimers[OF assms]
    by (auto simp add: updateCountdownB_def setTimeout_def Let_def autoFlushTimers_def
        filter_empty_conv)
  from consistent_updateCountdownB[OF c1, of opts] none
  show "consistent (scheduleFlush opts h)"
    unfolding s by (auto simp add: consistent_def less_Suc_eq)
  show "pendingUpdates (scheduleFlush opts h) = pendingUpdates h"
    unfolding s by (simp add: updateCountdownB_frame clearTimers_eq)
  show "delivered (scheduleFlush opts h) = delivered h"
    unfolding s by (simp add: updateCountdownB_frame clearTimers_eq)
qed

lemma consistent_addUpdate: "consistent h \<Longrightarrow> consistent (addUpdate opts update h)"
proof -
  assume c: "consistent h"
  have c': "consistent (h\<lparr> hasPendingUpdatesRef := True \<rparr>)"
    using c by (simp add: consistent_def)
  show ?thesis
    using c consistent_scheduleFlush(1)[OF c', of opts]
    by (auto simp add: addUpdate_def Let_def setTimeout_def consistent_def less_Suc_eq)
qed

lemma consistent_timerFires: "consistent h \<Longrightarrow> consistent (timerFires opts k h)"
proof -
  assume c: "consistent h"
  let ?h1 = "h\<lparr> timers := filter (\<lambda>t. fst t \<noteq> k) (timers h) \<rparr>"
  have c1: "consistent ?h1" using c by (auto simp add: consistent_def distinct_map_filter)
  show ?thesis
  proof (cases "find (\<lambda>t. fst t = k) (timers h)")
    case None
    then show ?thesis using c by (simp add: timerFires_def)
  next
    case (Some t)
    obtain k' d task where t: "t = (k', d, task)" by (cases t)
    show ?thesis
    proof (cases task)
      case AutoFlush
      then show ?thesis using Some t consistent_flush[OF c1] by (simp add: timerFires_def)
    next
      case (Deliver us n)
      then show ?thesis using Some t c1 by (simp add: timerFires_def consistent_def)
    next
      case Countdown
      then show ?thesis using Some t consistent_updateCountdownB[OF c1]
        by (simp add: timerFires_def)
    qed
  qed
qed

lemma consistent_stepB: "consistent h \<Longrightarrow> consistent (stepB opts ev h)"
proof -
  assume c: "consistent h"
  have "consistent (handleB opts ev h)"
    using c
    by (cases ev)
      (simp_all add: consistent_addUpdate consistent_flush consistent_clear
        consistent_timerFires, simp add: consistent_def)
  then show ?thesis by (simp add: stepB_def render_def consistent_def Let_def)
qed

lemma stepB_synced: "pendingUpdatesRef (stepB opts ev h) = pendingUpdates (stepB opts ev h)"
  by (simp add: stepB_def render_def Let_def)

lemma consistent_runB: "consistent h \<Longrightarrow> consistent (runB opts evs h)"
  by (induction evs arbitrary: h) (simp_all add: consistent_stepB)

lemma synced_runB:
  "pendingUpdatesRef h = pendingUpdates h \<Longrightarrow>
   pendingUpdatesRef (runB opts evs h) = pendingUpdates (runB opts evs h)"
  by (induction evs arbitrary: h) (simp_all add: stepB_synced)

lemma consistent_mountB: "consistent mountB"
  by (simp add: consistent_def mountB_def)


text \<open>
  In every reachable instance at most one auto-flush timeout is outstanding: each such
  timeout has the handle that \<open>timeoutRef\<close> holds, and handles are not shared.
\<close>

lemma same_handle_once:
  "distinct (map fst ts) \<Longrightarrow> \<forall>t \<in> set ts. P t \<longrightarrow> fst t = k \<Longrightarrow> length (filter P ts) \<le> 1"
proof (induction ts)
  case Nil
  then show ?case by simp
next
  case (Cons t ts)
  show ?case
  proof (cases "P t")
    case True
    then have "fst t = k" using Cons.prems(2) by simp
    have "\<not> P u" if "u \<in> set ts" for u
    proof
      assume "P u"
      then have "fst u = fst t" using that Cons.prems(2) \<open>fst t = k\<close> by simp
      moreover have "fst t \<notin> fst ` set ts" using Cons.prems(1) by simp
      ultimately show False using that by (metis imageI)
    qed
    then have "\<forall>u \<in> set ts. \<not> P u" by blast
    then have "filter P ts = []" by (simp add: filter_empty_conv)
    then show ?thesis using True by simp
  next
    case False
    then show ?thesis using Cons by simp
  qed
qed

lemma at_most_one_auto_flush_timer:
  "length (autoFlushTimers (runB opts evs mountB)) \<le> 1"
proof -
  have c: "consistent (runB opts evs mountB)"
    by (rule consistent_runB[OF consistent_mountB])
  show ?thesis
  proof (cases "timeoutRefB (runB opts evs mountB)")
    case None
    then have "autoFlushTimers (runB opts evs mountB) = []"
      using c by (auto simp add: consistent_def autoFlushTimers_def filter_empty_conv)
    then show ?thesis by simp
  next
    case (Some k)
    then show ?thesis
      unfolding autoFlushTimers_def
      using c by (intro same_handle_once[where k = k]) (auto simp add: consistent_def)
  qed
qed

lemma flush_pending: "pendingUpdates (flush h) = []"
  by (simp add: flush_def Let_def)

lemma timerFires_pending:
  "pendingUpdates (timerFires opts k h) = pendingUpdates h
   \<or> pendingUpdates (timerFires opts k h) = []"
proof (cases "find (\<lambda>t. fst t = k) (timers h)")
  case None
  then show ?thesis by (simp add: timerFires_def)
next
  case (Some t)
  obtain k' d task where t: "t = (k', d, task)" by (cases t)
  show ?thesis
    using Some t
    by (cases task) (simp_all add: timerFires_def flush_pending updateCountdownB_frame)
qed

lemma addUpdate_pending:
  "pendingUpdates (addUpdate opts update h) = []
   \<or> int (length (pendingUpdates (addUpdate opts update h))) < maxBatchSize opts"
proof -
  have "pendingUpdates (scheduleFlush opts (h\<lparr> hasPendingUpdatesRef := True \<rparr>)
          \<lparr> isFirstUpdateRef := False, pendingUpdates := us \<rparr>) = us" for us
    by simp
  then show ?thesis
    by (auto simp add: addUpdate_def Let_def setTimeout_def)
qed

lemma belowMaxBatchSize_stepB:
  "belowMaxBatchSize opts h \<Longrightarrow> belowMaxBatchSize opts (stepB opts ev h)"
proof -
  assume b: "belowMaxBatchSize opts h"
  have "belowMaxBatchSize opts (handleB opts ev h)"
  proof (cases ev)
    case (AddUpdate u)
    then show ?thesis using addUpdate_pending[of opts u h] by (simp add: belowMaxBatchSize_def)
  next
    case Flush
    then show ?thesis by (simp add: belowMaxBatchSize_def flush_pending)
  next
    case Clear
    then show ?thesis by (simp add: belowMaxBatchSize_def clear_def)
  next
    case (TimerFires k)
    then show ?thesis using b timerFires_pending[of opts k h]
      by (auto simp add: belowMaxBatchSize_def)
  next
    case (Elapse ms)
    then show ?thesis using b by (simp add: belowMaxBatchSize_def)
  qed
  then show ?thesis by (simp add: stepB_def render_def belowMaxBatchSize_def Let_def)
qed

lemma belowMaxBatchSize_runB:
  "belowMaxBatchSize opts h \<Longrightarrow> belowMaxBatchSize opts (runB opts evs h)"
  by (induction evs arbitrary: h) (simp_all add: belowMaxBatchSize_stepB)

lemma find_fresh:
  "\<forall>t \<in> set ts. fst t < (k :: nat) \<Longrightarrow> find (\<lambda>t. fst t = k) (ts @ [(k, d, task)]) = Some (k, d, task)"
  by (induction ts) auto

lemma filter_fresh:
  "\<forall>t \<in> set ts. fst t < (k :: nat) \<Longrightarrow> filter (\<lambda>t. fst t \<noteq> k) (ts @ [(k, d, task)]) = ts"
  by (induction ts) auto

lemma deferred_delivery:
  assumes "\<forall>t \<in> set (timers h). fst t < nextHandle h"
    and "h' = render ((snd (setTimeout (Deliver us n) 0 h))\<lparr> isFirstUpdateRef := b, pendingUpdates := [] \<rparr>)"
  shows "pendingUpdates h' = []"
    and "delivered h' = delivered h"
    and "timers h' = timers h @ [(nextHandle h, 0, Deliver us n)]"
    and "delivered (stepB opts (TimerFires (nextHandle h)) h') =
           delivered h @ [OnFlush us n, OnBatchFlush us]"
    and "pendingUpdates (stepB opts (TimerFires (nextHandle h)) h') = []"
    and "timers (stepB opts (TimerFires (nextHandle h)) h') = timers h"
proof -
  show p: "pendingUpdates h' = []" and d: "delivered h' = delivered h"
    and t: "timers h' = timers h @ [(nextHandle h, 0, Deliver us n)]"
    using assms(2) by (simp_all add: render_def setTimeout_def Let_def)
  note f = find_fresh[OF assms(1), of 0 "Deliver us n"] filter_fresh[OF assms(1), of 0 "Deliver us n"]
  show "delivered (stepB opts (TimerFires (nextHandle h)) h') =
           delivered h @ [OnFlush us n, OnBatchFlush us]"
    using p d t f by (simp add: stepB_def render_def timerFires_def Let_def)
  show "pendingUpdates (stepB opts (TimerFires (nextHandle h)) h') = []"
    using p d t f by (simp add: stepB_def render_def timerFires_def Let_def)
  show "timers (stepB opts (TimerFires (nextHandle h)) h') = timers h"
    using p d t f by (simp add: stepB_def render_def timerFires_def Let_def)
qed

text \<open>
  C5 (every flush, whatever triggers it, cancels the outstanding auto-flush timeout) fails
  on the code for the two flushes that \<open>addUpdate\<close> schedules itself. With
  \<open>maxBatchSize = 3\<close>, after the third update the batch of three is delivered and the batch
  is empty, yet the auto-flush timeout armed by the first update is still outstanding and
  \<open>timeUntilFlush\<close> still shows the full window; with \<open>flushOnFirst\<close> the flush of a first
  update leaves an outstanding auto-flush timeout in place, too. A manual \<open>flush()\<close> does
  cancel it.
\<close>

theorem size_flush_keeps_auto_flush_timer:
  "delivered sizeFlushed = [OnFlush [''a'', ''b'', ''c''] 3, OnBatchFlush [''a'', ''b'', ''c'']]
   \<and> pendingUpdates sizeFlushed = []
   \<and> autoFlushTimers sizeFlushed = [(2, 100, AutoFlush)]
   \<and> timeUntilFlush sizeFlushed = 100
   \<and> delivered firstFlushed =
       [OnFlush [''a''] 1, OnBatchFlush [''a''],
        OnFlush [''b'', ''c'', ''d''] 3, OnBatchFlush [''b'', ''c'', ''d''],
        OnFlush [''e''] 1, OnBatchFlush [''e'']]
   \<and> pendingUpdates firstFlushed = []
   \<and> autoFlushTimers firstFlushed = [(3, 100, AutoFlush)]
   \<and> delivered manuallyFlushed = [OnFlush [''a'', ''b''] 2, OnBatchFlush [''a'', ''b'']]
   \<and> autoFlushTimers manuallyFlushed = []"
  by (simp add: sizeFlushed_def firstFlushed_def manuallyFlushed_def sizeThree_def batch_defs)

text \<open>
  C6 as stated (the flush of a first update under \<open>flushOnFirst\<close> delivers the result of the
  reducer) fails: a reducer that drops negative numbers returns the empty batch for the
  first update \<open>-1\<close>, and \<open>[-1]\<close> is delivered.
\<close>

theorem flushOnFirst_counterexample:
  "reducer droppingNegatives (pendingUpdates mountB) (- 1) = []
   \<and> delivered (runB droppingNegatives [AddUpdate (- 1), TimerFires 1] mountB) =
       [OnFlush [- 1] 1, OnBatchFlush [- 1]]"
  by (simp add: droppingNegatives_def batch_defs)

text \<open>
  C6, amended. In every reachable instance, when \<open>flushOnFirst\<close> is set and the first-update
  flag is set, the batch is empty, and \<open>addUpdate update\<close> delivers nothing at once, keeps
  the batch empty and schedules, with delay 0, the delivery of the one-element batch
  \<open>[update]\<close> with size 1: when that timeout fires, \<open>onFlush\<close> and the consumer get
  \<open>[update]\<close>, whatever the reducer returns. For the default reducer, which appends,
  \<open>[update]\<close> is the result of the reducer.
\<close>

theorem flushOnFirst_delivers_first_update:
  assumes "h = runB opts evs mountB" and "flushOnFirst opts" and "isFirstUpdateRef h"
  shows "pendingUpdates h = []
    \<and> pendingUpdates (runB opts [AddUpdate update] h) = []
    \<and> delivered (runB opts [AddUpdate update] h) = delivered h
    \<and> timers (runB opts [AddUpdate update] h) =
        timers h @ [(nextHandle h, 0, Deliver [update] 1)]
    \<and> delivered (runB opts [AddUpdate update, TimerFires (nextHandle h)] h) =
        delivered h @ [OnFlush [update] 1, OnBatchFlush [update]]
    \<and> pendingUpdates (runB opts [AddUpdate update, TimerFires (nextHandle h)] h) = []
    \<and> reducer DEFAULT_OPTIONS_B (pendingUpdates h) update = [update]"
proof -
  have c: "consistent h"
    unfolding assms(1) by (rule consistent_runB[OF consistent_mountB])
  then have fresh: "\<forall>t \<in> set (timers h). fst t < nextHandle h"
    and empty: "pendingUpdates h = []"
    using assms(3) by (simp_all add: consistent_def)
  have step: "stepB opts (AddUpdate update) h =
      render ((snd (setTimeout (Deliver [update] 1) 0 h))
                \<lparr> isFirstUpdateRef := False, pendingUpdates := [] \<rparr>)"
    using assms(2,3) by (simp add: stepB_def addUpdate_def Let_def setTimeout_def)
  note dd = deferred_delivery[OF fresh step]
  show ?thesis
    using dd empty by (simp add: DEFAULT_OPTIONS_B_def)
qed

theorem flushOnFirst_delivers_first_update_witness:
  "pendingUpdates (runB (sizeThree\<lparr> flushOnFirst := True \<rparr>) [AddUpdate ''a''] mountB) = []
   \<and> delivered (runB (sizeThree\<lparr> flushOnFirst := True \<rparr>) [AddUpdate ''a''] mountB) = []
   \<and> delivered (runB (sizeThree\<lparr> flushOnFirst := True \<rparr>) [AddUpdate ''a'', TimerFires 1] mountB)
       = [OnFlush [''a''] 1, OnBatchFlush [''a'']]"
  using flushOnFirst_delivers_first_update[of mountB "sizeThree\<lparr> flushOnFirst := True \<rparr>" "[]"
      "''a''"]
  by (simp add: sizeThree_def mountB_def DEFAULT_OPTIONS_B_def)

text \<open>
  C7 as stated (with \<open>maxBatchSize = 3\<close>, three updates are queued and the fourth triggers a
  flush of all four) fails: the third update already empties the batch and schedules the
  delivery of the three, and the fourth update starts a new batch with a new timer.
\<close>

theorem fourth_update_counterexample:
  "pendingUpdates (runB sizeThree [AddUpdate ''a'', AddUpdate ''b'', AddUpdate ''c''] mountB) = []
   \<and> delivered fourUpdates =
       [OnFlush [''a'', ''b'', ''c''] 3, OnBatchFlush [''a'', ''b'', ''c'']]
   \<and> pendingUpdates fourUpdates = [''d'']
   \<and> map fst (timers fourUpdates) = [4, 5]"
  by (simp add: fourUpdates_def sizeThree_def batch_defs)

text \<open>
  C7, amended. With \<open>maxBatchSize = 3\<close> and the default reducer, in every reachable instance
  that holds two pending updates, adding a third one delivers nothing at once, empties the
  batch and schedules, with delay 0, the delivery of all three updates with size 3, which
  \<open>onFlush\<close> and the consumer get when that timeout fires. A pending batch never holds
  three updates.
\<close>

theorem size_flush_on_third_update:
  assumes "h = runB opts evs mountB" and "maxBatchSize opts = 3"
    and "reducer opts = reducer DEFAULT_OPTIONS_B" and "pendingUpdates h = [u1, u2]"
  shows "pendingUpdates (runB opts [AddUpdate u3] h) = []
    \<and> delivered (runB opts [AddUpdate u3] h) = delivered h
    \<and> timers (runB opts [AddUpdate u3] h) =
        timers h @ [(nextHandle h, 0, Deliver [u1, u2, u3] 3)]
    \<and> delivered (runB opts [AddUpdate u3, TimerFires (nextHandle h)] h) =
        delivered h @ [OnFlush [u1, u2, u3] 3, OnBatchFlush [u1, u2, u3]]
    \<and> pendingUpdates (runB opts [AddUpdate u3, TimerFires (nextHandle h)] h) = []
    \<and> length (pendingUpdates (runB opts evs' mountB)) < 3"
proof -
  have c: "consistent h"
    unfolding assms(1) by (rule consistent_runB[OF consistent_mountB])
  then have fresh: "\<forall>t \<in> set (timers h). fst t < nextHandle h"
    and notFirst: "\<not> isFirstUpdateRef h"
    using assms(4) by (auto simp add: consistent_def)
  have step: "stepB opts (AddUpdate u3) h =
      render ((snd (setTimeout (Deliver [u1, u2, u3] 3) 0 h))
                \<lparr> isFirstUpdateRef := True, pendingUpdates := [] \<rparr>)"
    using assms(2,3,4) notFirst
    by (simp add: stepB_def addUpdate_def Let_def DEFAULT_OPTIONS_B_def setTimeout_def
        numeral_3_eq_3)
  note dd = deferred_delivery[OF fresh step]
  have "belowMaxBatchSize opts (runB opts evs' mountB)"
    by (rule belowMaxBatchSize_runB) (simp add: belowMaxBatchSize_def mountB_def)
  then have "length (pendingUpdates (runB opts evs' mountB)) < 3"
    using assms(2) by (auto simp add: belowMaxBatchSize_def)
  then show ?thesis
    using dd by simp
qed

theorem size_flush_on_third_update_witness:
  "pendingUpdates (runB sizeThree [AddUpdate ''c'']
      (runB sizeThree [AddUpdate ''a'', AddUpdate ''b''] mountB)) = []
   \<and> delivered (runB sizeThree [AddUpdate ''c'', TimerFires 3]
      (runB sizeThree [AddUpdate ''a'', AddUpdate ''b''] mountB)) =
       [OnFlush [''a'', ''b'', ''c''] 3, OnBatchFlush [''a'', ''b'', ''c'']]"
proof -
  have h: "pendingUpdates (runB sizeThree [AddUpdate ''a'', AddUpdate ''b''] mountB) = [''a'', ''b'']"
    "nextHandle (runB sizeThree [AddUpdate ''a'', AddUpdate ''b''] mountB) = 3"
    "delivered (runB sizeThree [AddUpdate ''a'', AddUpdate ''b''] mountB) = []"
    by (simp_all add: sizeThree_def batch_defs)
  have o: "maxBatchSize sizeThree = 3" "reducer sizeThree = reducer DEFAULT_OPTIONS_B"
    by (simp_all add: sizeThree_def)
  from size_flush_on_third_update[OF refl o h(1), of "''c''"] h(2,3)
  show ?thesis by simp
qed

text \<open>
  C9. Unmounting a reachable instance whose pending batch is not empty invokes \<open>onFlush\<close>
  once, with the pending updates and their number, then the consumer once, with the
  pending updates, and nothing else; no auto-flush timeout stays outstanding that could
  deliver them again.
\<close>

theorem unmount_flushes_pending_batch:
  assumes "h = runB opts evs mountB" and "pendingUpdates h \<noteq> []"
  shows "delivered (unmount h) =
           delivered h @ [OnFlush (pendingUpdates h) (length (pendingUpdates h)),
                          OnBatchFlush (pendingUpdates h)]
    \<and> autoFlushTimers (unmount h) = []"
proof -
  have c: "consistent h"
    unfolding assms(1) by (rule consistent_runB[OF consistent_mountB])
  have s: "pendingUpdatesRef h = pendingUpdates h"
    unfolding assms(1) by (rule synced_runB) (simp add: mountB_def)
  have "autoFlushTimers (clearTimers h) = []"
    by (rule no_autoFlush_clearTimers[OF c])
  then show ?thesis
    using s assms(2) by (simp add: unmount_def Let_def clearTimers_eq autoFlushTimers_def)
qed

theorem unmount_flushes_pending_batch_witness:
  "delivered (unmount (runB sizeThree [AddUpdate ''a'', AddUpdate ''b''] mountB)) =
     [OnFlush [''a'', ''b''] 2, OnBatchFlush [''a'', ''b'']]
   \<and> autoFlushTimers (unmount (runB sizeThree [AddUpdate ''a'', AddUpdate ''b''] mountB)) = []"
proof -
  have h: "pendingUpdates (runB sizeThree [AddUpdate ''a'', AddUpdate ''b''] mountB) = [''a'', ''b'']"
    "delivered (runB sizeThree [AddUpdate ''a'', AddUpdate ''b''] mountB) = []"
    by (simp_all add: sizeThree_def batch_defs)
  from unmount_flushes_pending_batch[OF refl, of sizeThree "[AddUpdate ''a'', AddUpdate ''b'']"] h
  show ?thesis by simp
qed

end
